theory Spec2Isabelle
  imports Complex_Main
begin

section \<open>Values of the analysis script\<close>

text \<open>
  The script \<^verbatim>\<open>docs/experement_analysis.py\<close> reads a JSON log of experiment runs, groups
  the runs by configuration, sorts the groups by the number in the configuration name and
  fills a family of parallel lists that the plots are drawn from.

  Python exceptions are values of \<open>error\<close>; a computation that may raise returns
  \<open>error + 'a\<close> with \<open>Inl\<close> for the exception.

  Python floats are modelled by the exact rational they stand for, together with the three
  special values that \<^verbatim>\<open>float()\<close> can read from a string and that \<^verbatim>\<open>np.nan\<close> introduces.
  Rounding to binary64 and the finite range of binary64 are not modelled. Strings are lists
  of 8-bit characters, read as the code points 0 to 255 of a Python \<^verbatim>\<open>str\<close>.
\<close>

datatype error = ValueError | IndexError

datatype json =
    JNull
  | JBool bool
  | JNum rat
  | JStr string
  | JArr "json list"
  | JObj "(string \<times> json) list"

datatype pyfloat = Fin rat | PInf | NInf | NaN

fun pf_add :: "pyfloat \<Rightarrow> pyfloat \<Rightarrow> pyfloat" where
  "pf_add (Fin a) (Fin b) = Fin (a + b)"
| "pf_add NaN _ = NaN"
| "pf_add _ NaN = NaN"
| "pf_add PInf NInf = NaN"
| "pf_add NInf PInf = NaN"
| "pf_add PInf _ = PInf"
| "pf_add _ PInf = PInf"
| "pf_add NInf _ = NInf"
| "pf_add _ NInf = NInf"

fun pf_lt :: "pyfloat \<Rightarrow> pyfloat \<Rightarrow> bool" where
  "pf_lt (Fin a) (Fin b) = (a < b)"
| "pf_lt NaN _ = False"
| "pf_lt _ NaN = False"
| "pf_lt NInf NInf = False"
| "pf_lt NInf _ = True"
| "pf_lt PInf _ = False"
| "pf_lt (Fin a) PInf = True"
| "pf_lt (Fin a) NInf = False"

text \<open>Division as numpy does it on float64 arrays: a zero divisor gives an infinity or
  not-a-number (with a warning), never an exception.\<close>

fun np_div :: "pyfloat \<Rightarrow> pyfloat \<Rightarrow> pyfloat" where
  "np_div (Fin a) (Fin b) =
     (if b \<noteq> 0 then Fin (a / b)
      else if 0 < a then PInf else if a < 0 then NInf else NaN)"
| "np_div NaN _ = NaN"
| "np_div _ NaN = NaN"
| "np_div (Fin a) _ = Fin 0"
| "np_div PInf (Fin b) = (if b < 0 then NInf else PInf)"
| "np_div NInf (Fin b) = (if b < 0 then PInf else NInf)"
| "np_div _ _ = NaN"

definition isnan :: "pyfloat \<Rightarrow> bool" where
  "isnan x = (x = NaN)"

section \<open>String operations used by the script\<close>

text \<open>\<^verbatim>\<open>str.isspace\<close> on the code points below 256, the characters that \<^verbatim>\<open>split()\<close> and
  \<^verbatim>\<open>strip()\<close> remove.\<close>

definition py_isspace :: "char \<Rightarrow> bool" where
  "py_isspace c = (c \<in> {CHR 0x09, CHR 0x0A, CHR 0x0B, CHR 0x0C, CHR 0x0D, CHR 0x1C,
                        CHR 0x1D, CHR 0x1E, CHR 0x1F, CHR 0x20, CHR 0x85, CHR 0xA0})"

text \<open>The blanks that \<^verbatim>\<open>int()\<close> and \<^verbatim>\<open>float()\<close> skip around a literal: the ASCII white
  space of C, and the two further blanks below 256.\<close>

definition num_isspace :: "char \<Rightarrow> bool" where
  "num_isspace c = (c \<in> {CHR 0x09, CHR 0x0A, CHR 0x0B, CHR 0x0C, CHR 0x0D, CHR 0x20,
                         CHR 0x85, CHR 0xA0})"

definition strip_by :: "(char \<Rightarrow> bool) \<Rightarrow> string \<Rightarrow> string" where
  "strip_by p s = rev (dropWhile p (rev (dropWhile p s)))"

text \<open>\<^verbatim>\<open>s.split(sep)\<close> for a one-character separator: never empty, \<^verbatim>\<open>''.split(':')\<close> is
  \<^verbatim>\<open>['']\<close>.\<close>

fun split_on :: "char \<Rightarrow> string \<Rightarrow> string list" where
  "split_on sep [] = [[]]"
| "split_on sep (c # cs) =
     (if c = sep then [] # split_on sep cs
      else (case split_on sep cs of
              [] \<Rightarrow> [[c]]
            | w # ws \<Rightarrow> (c # w) # ws))"

text \<open>\<^verbatim>\<open>s.split(sep, 1)\<close>: one field when the separator is absent, else the text before the
  first separator and everything after it.\<close>

definition split_first :: "char \<Rightarrow> string \<Rightarrow> string list" where
  "split_first sep s =
     (if sep \<in> set s
      then [takeWhile (\<lambda>c. c \<noteq> sep) s, tl (dropWhile (\<lambda>c. c \<noteq> sep) s)]
      else [s])"

text \<open>\<^verbatim>\<open>s.split()\<close>: the maximal runs of non-blank characters; \<open>cur\<close> is the run being read,
  reversed.\<close>

fun split_ws_from :: "string \<Rightarrow> string \<Rightarrow> string list" where
  "split_ws_from cur [] = (if cur = [] then [] else [rev cur])"
| "split_ws_from cur (c # cs) =
     (if py_isspace c
      then (if cur = [] then split_ws_from [] cs else rev cur # split_ws_from [] cs)
      else split_ws_from (c # cur) cs)"

definition split_ws :: "string \<Rightarrow> string list" where
  "split_ws s = split_ws_from [] s"

section \<open>Number literals: int() and float()\<close>

definition digit_val :: "char \<Rightarrow> nat option" where
  "digit_val c = map_of
     [(CHR ''0'', 0), (CHR ''1'', 1), (CHR ''2'', 2), (CHR ''3'', 3), (CHR ''4'', 4),
      (CHR ''5'', 5), (CHR ''6'', 6), (CHR ''7'', 7), (CHR ''8'', 8), (CHR ''9'', 9)] c"

definition is_digit :: "char \<Rightarrow> bool" where
  "is_digit c = (digit_val c \<noteq> None)"

definition dval :: "char \<Rightarrow> nat" where
  "dval c = (case digit_val c of Some d \<Rightarrow> d | None \<Rightarrow> 0)"

text \<open>The number a string of decimal digits denotes.\<close>

definition dec_val :: "string \<Rightarrow> nat" where
  "dec_val ds = foldl (\<lambda>n c. 10 * n + dval c) 0 ds"

text \<open>A digit part: digits, with single underscores allowed between two digits.\<close>

fun digitpart_ok :: "string \<Rightarrow> bool" where
  "digitpart_ok [] = False"
| "digitpart_ok [c] = is_digit c"
| "digitpart_ok (c # d # r) =
     (is_digit c \<and> (if d = CHR ''_'' then digitpart_ok r else digitpart_ok (d # r)))"

definition drop_underscores :: "string \<Rightarrow> string" where
  "drop_underscores s = filter (\<lambda>c. c \<noteq> CHR ''_'') s"

text \<open>An optional sign in front of a literal.\<close>

definition split_sign :: "string \<Rightarrow> int \<times> string" where
  "split_sign s =
     (case s of
        [] \<Rightarrow> (1, [])
      | c # r \<Rightarrow> if c = CHR ''-'' then (- 1, r) else if c = CHR ''+'' then (1, r) else (1, s))"

text \<open>\<^verbatim>\<open>int(s)\<close> in base 10: blanks around, an optional sign, a digit part. \<open>None\<close> stands
  for ValueError. The bound that recent CPython versions put on the number of digits of a
  literal is not modelled.\<close>

definition py_int :: "string \<Rightarrow> int option" where
  "py_int s =
     (let (sg, body) = split_sign (strip_by num_isspace s)
      in if digitpart_ok body then Some (sg * int (dec_val (drop_underscores body))) else None)"

text \<open>Underscores in a float literal must stand between two digits.\<close>

fun underscores_ok :: "char option \<Rightarrow> string \<Rightarrow> bool" where
  "underscores_ok prev [] = (prev \<noteq> Some (CHR ''_''))"
| "underscores_ok prev (c # cs) =
     ((if c = CHR ''_'' then (case prev of Some p \<Rightarrow> is_digit p | None \<Rightarrow> False)
       else (prev = Some (CHR ''_'') \<longrightarrow> is_digit c))
      \<and> underscores_ok (Some c) cs)"

definition ascii_lower :: "char \<Rightarrow> char" where
  "ascii_lower c =
     (case map_of (zip ''ABCDEFGHIJKLMNOPQRSTUVWXYZ'' ''abcdefghijklmnopqrstuvwxyz'') c of
        Some l \<Rightarrow> l
      | None \<Rightarrow> c)"

text \<open>The exponent of a float literal: nothing, or \<^verbatim>\<open>e\<close>, an optional sign and digits.\<close>

definition parse_exponent :: "string \<Rightarrow> int option" where
  "parse_exponent s =
     (case s of
        [] \<Rightarrow> Some 0
      | c # r \<Rightarrow>
          if c = CHR ''e'' \<or> c = CHR ''E''
          then (let (sg, ds) = split_sign r
                in if ds \<noteq> [] \<and> list_all is_digit ds then Some (sg * int (dec_val ds))
                   else None)
          else None)"

definition pow10 :: "int \<Rightarrow> rat" where
  "pow10 e = (if 0 \<le> e then 10 ^ nat e else 1 / 10 ^ nat (- e))"

text \<open>A decimal literal without sign: digits, an optional point and digits (at least one
  digit in all), an optional exponent.\<close>

definition parse_decimal :: "string \<Rightarrow> rat option" where
  "parse_decimal s =
     (let ip = takeWhile is_digit s;
          r1 = dropWhile is_digit s;
          fp = (case r1 of [] \<Rightarrow> [] | c # r \<Rightarrow> if c = CHR ''.'' then takeWhile is_digit r else []);
          r2 = (case r1 of [] \<Rightarrow> [] | c # r \<Rightarrow> if c = CHR ''.'' then dropWhile is_digit r else r1)
      in if ip = [] \<and> fp = [] then None
         else (case parse_exponent r2 of
                 None \<Rightarrow> None
               | Some e \<Rightarrow>
                   Some (of_nat (dec_val (ip @ fp)) * pow10 e / 10 ^ length fp)))"

text \<open>\<^verbatim>\<open>float(s)\<close>: blanks around, underscores between digits, an optional sign, then
  \<^verbatim>\<open>inf\<close>, \<^verbatim>\<open>infinity\<close> or \<^verbatim>\<open>nan\<close> in any case, or a decimal literal. \<open>None\<close> stands for
  ValueError.\<close>

definition py_float :: "string \<Rightarrow> pyfloat option" where
  "py_float s =
     (let t = strip_by num_isspace s
      in if \<not> underscores_ok None t then None
         else (let (sg, body) = split_sign (drop_underscores t);
                   low = map ascii_lower body
               in if low = ''inf'' \<or> low = ''infinity'' then Some (if sg < 0 then NInf else PInf)
                  else if low = ''nan'' then Some NaN
                  else (case parse_decimal body of
                          None \<Rightarrow> None
                        | Some v \<Rightarrow> Some (Fin (of_int sg * v)))))"

section \<open>time\_to\_seconds\<close>

text \<open>
  \<^verbatim>\<open>
  def time_to_seconds(t):
      if not isinstance(t, str):
          return 0
      try:
          h, m, s = t.split(':')
          s, ms = (s.split('.') + ['0'])[:2]
          return int(h)*3600 + int(m)*60 + float(s) + float('0.' + ms)
      except:
          return 0
  \<close>
  \<open>time_to_seconds_try\<close> is the body of the \<^verbatim>\<open>try\<close>, with its exceptions as values; the
  bare \<^verbatim>\<open>except\<close> turns every one of them into 0.
\<close>

definition time_to_seconds_try :: "string \<Rightarrow> error + pyfloat" where
  "time_to_seconds_try t =
     (case split_on (CHR '':'') t of
        [h, m, s] \<Rightarrow>
          (case take 2 (split_on (CHR ''.'') s @ [''0'']) of
             [s', ms] \<Rightarrow>
               (case py_int h of
                  None \<Rightarrow> Inl ValueError
                | Some hi \<Rightarrow>
                    (case py_int m of
                       None \<Rightarrow> Inl ValueError
                     | Some mi \<Rightarrow>
                         (case py_float s' of
                            None \<Rightarrow> Inl ValueError
                          | Some fs \<Rightarrow>
                              (case py_float (''0.'' @ ms) of
                                 None \<Rightarrow> Inl ValueError
                               | Some fm \<Rightarrow>
                                   Inr (pf_add
                                          (pf_add (Fin (of_int (hi * 3600 + mi * 60))) fs)
                                          fm)))))
           | _ \<Rightarrow> Inl ValueError)
      | _ \<Rightarrow> Inl ValueError)"

definition time_to_seconds :: "json \<Rightarrow> pyfloat" where
  "time_to_seconds t =
     (case t of
        JStr s \<Rightarrow> (case time_to_seconds_try s of Inl e \<Rightarrow> Fin 0 | Inr v \<Rightarrow> v)
      | _ \<Rightarrow> Fin 0)"



section \<open>Grouping the experiments by configuration\<close>

record experiment_rec =
  Configuration :: string
  AlgorithmType :: string
  Makespan :: rat
  ComputationTime :: json
  TaskCount :: int

record group =
  PSO :: "experiment_rec list"
  GA :: "experiment_rec option"

text \<open>
  \<^verbatim>\<open>
  configs = {}
  for exp in experiments:
      config = exp['Configuration']
      if config not in configs:
          configs[config] = {'PSO': [], 'GA': None}
      if exp['AlgorithmType'] == 'Pso':
          configs[config]['PSO'].append(exp)
      elif exp['AlgorithmType'] == 'Genetic' and configs[config]['GA'] is None:
          configs[config]['GA'] = exp
  \<close>
  The dictionary keeps its keys in the order of first insertion, so it is an association
  list with distinct keys; \<open>upd_group\<close> changes the entry of a key where it stands.
\<close>

definition upd_group :: "string \<Rightarrow> (group \<Rightarrow> group) \<Rightarrow> (string \<times> group) list \<Rightarrow> (string \<times> group) list" where
  "upd_group k f cfgs = map (\<lambda>(k', g). if k' = k then (k', f g) else (k', g)) cfgs"

definition group_step :: "(string \<times> group) list \<Rightarrow> experiment_rec \<Rightarrow> (string \<times> group) list" where
  "group_step configs ex =
     (let config = Configuration ex;
          configs1 = (if config \<in> fst ` set configs then configs
                      else configs @ [(config, \<lparr>PSO = [], GA = None\<rparr>)])
      in if AlgorithmType ex = ''Pso''
         then upd_group config (\<lambda>g. g\<lparr>PSO := PSO g @ [ex]\<rparr>) configs1
         else if AlgorithmType ex = ''Genetic''
         then upd_group config (\<lambda>g. if GA g = None then g\<lparr>GA := Some ex\<rparr> else g) configs1
         else configs1)"

definition group_experiments :: "experiment_rec list \<Rightarrow> (string \<times> group) list" where
  "group_experiments experiments = foldl group_step [] experiments"

section \<open>Sorting the groups by the number in the configuration name\<close>

text \<open>
  \<^verbatim>\<open>
  sorted_configs = sorted(configs.items(),
                          key=lambda x: int(x[0].split(':')[0].split()[-1]))
  \<close>
  \<open>ordinal_token\<close> is \<^verbatim>\<open>name.split(':')[0].split()[-1]\<close>, which raises IndexError when the
  text before the first colon holds no token; \<open>config_ordinal\<close> is the key function.
  \<^verbatim>\<open>sorted\<close> computes every key first, so the first key that raises aborts the sort, and
  it is stable, as \<open>sort_key\<close> is.
\<close>

definition ordinal_token :: "string \<Rightarrow> error + string" where
  "ordinal_token config_name =
     (case split_on (CHR '':'') config_name of
        [] \<Rightarrow> Inl IndexError
      | front # _ \<Rightarrow>
          (case split_ws front of
             [] \<Rightarrow> Inl IndexError
           | t # ts \<Rightarrow> Inr (last (t # ts))))"

definition config_ordinal :: "string \<Rightarrow> error + int" where
  "config_ordinal config_name =
     (case ordinal_token config_name of
        Inl e \<Rightarrow> Inl e
      | Inr tok \<Rightarrow> (case py_int tok of None \<Rightarrow> Inl ValueError | Some n \<Rightarrow> Inr n))"

fun with_keys :: "(string \<times> group) list \<Rightarrow> error + (int \<times> string \<times> group) list" where
  "with_keys [] = Inr []"
| "with_keys (x # xs) =
     (case config_ordinal (fst x) of
        Inl e \<Rightarrow> Inl e
      | Inr n \<Rightarrow> (case with_keys xs of Inl e \<Rightarrow> Inl e | Inr r \<Rightarrow> Inr ((n, x) # r)))"

definition sorted_configs :: "(string \<times> group) list \<Rightarrow> error + (string \<times> group) list" where
  "sorted_configs configs =
     (case with_keys configs of
        Inl e \<Rightarrow> Inl e
      | Inr keyed \<Rightarrow> Inr (map snd (sort_key fst keyed)))"

section \<open>Filling the parallel lists\<close>

text \<open>The lists the script starts empty on lines 29 to 40 and appends to in the loop; the
  plots read them by position. \<^verbatim>\<open>np.nan\<close> is the value \<open>NaN\<close>.\<close>

record aggregates =
  config_names :: "string list"
  pso_avg_makespan :: "pyfloat list"
  pso_min_makespan :: "rat list"
  pso_max_makespan :: "rat list"
  ga_makespan :: "pyfloat list"
  pso_avg_time :: "pyfloat list"
  pso_min_time :: "pyfloat list"
  pso_max_time :: "pyfloat list"
  ga_time :: "pyfloat list"
  task_counts :: "int list"

definition no_aggregates :: aggregates where
  "no_aggregates =
     \<lparr>config_names = [], pso_avg_makespan = [], pso_min_makespan = [], pso_max_makespan = [],
      ga_makespan = [], pso_avg_time = [], pso_min_time = [], pso_max_time = [],
      ga_time = [], task_counts = []\<rparr>"

text \<open>\<^verbatim>\<open>min\<close> and \<^verbatim>\<open>max\<close> of a list with first element \<open>x\<close>: the first element stays
  unless a later one compares strictly smaller (greater).\<close>

definition py_min :: "('a \<Rightarrow> 'a \<Rightarrow> bool) \<Rightarrow> 'a \<Rightarrow> 'a list \<Rightarrow> 'a" where
  "py_min lt x xs = foldl (\<lambda>best item. if lt item best then item else best) x xs"

definition py_max :: "('a \<Rightarrow> 'a \<Rightarrow> bool) \<Rightarrow> 'a \<Rightarrow> 'a list \<Rightarrow> 'a" where
  "py_max lt x xs = foldl (\<lambda>best item. if lt best item then item else best) x xs"

definition np_mean :: "pyfloat list \<Rightarrow> pyfloat" where
  "np_mean xs = np_div (foldl pf_add (Fin 0) xs) (Fin (of_nat (length xs)))"

text \<open>
  \<^verbatim>\<open>
  num = config_name.split(':')[0].split()[-1]
  name = config_name.split(':', 1)[1].strip()[:20]
  config_names.append(f"{num}: {name}")
  \<close>
\<close>

definition config_label :: "string \<Rightarrow> error + string" where
  "config_label config_name =
     (case ordinal_token config_name of
        Inl e \<Rightarrow> Inl e
      | Inr num \<Rightarrow>
          (case split_first (CHR '':'') config_name of
             _ # rest # _ \<Rightarrow> Inr (num @ '': '' @ take 20 (strip_by py_isspace rest))
           | _ \<Rightarrow> Inl IndexError))"

text \<open>
  \<^verbatim>\<open>
  if values['PSO']:
      makespans = [e['Makespan'] for e in values['PSO']]
      times = [time_to_seconds(e['ComputationTime']) for e in values['PSO']]
      pso_avg_makespan.append(np.mean(makespans))
      pso_min_makespan.append(min(makespans))
      pso_max_makespan.append(max(makespans))
      pso_avg_time.append(np.mean(times))
      pso_min_time.append(min(times))
      pso_max_time.append(max(times))
      task_counts.append(values['PSO'][0]['TaskCount'])
  \<close>
\<close>

definition add_pso :: "experiment_rec list \<Rightarrow> aggregates \<Rightarrow> aggregates" where
  "add_pso trials a =
     (case trials of
        [] \<Rightarrow> a
      | e # es \<Rightarrow>
          (let makespans = map Makespan es;
               times = map (\<lambda>e. time_to_seconds (ComputationTime e)) es;
               t0 = time_to_seconds (ComputationTime e)
           in a\<lparr>pso_avg_makespan := pso_avg_makespan a @ [np_mean (map Fin (Makespan e # makespans))],
                pso_min_makespan := pso_min_makespan a @ [py_min (<) (Makespan e) makespans],
                pso_max_makespan := pso_max_makespan a @ [py_max (<) (Makespan e) makespans],
                pso_avg_time := pso_avg_time a @ [np_mean (t0 # times)],
                pso_min_time := pso_min_time a @ [py_min pf_lt t0 times],
                pso_max_time := pso_max_time a @ [py_max pf_lt t0 times],
                task_counts := task_counts a @ [TaskCount e]\<rparr>))"

text \<open>
  \<^verbatim>\<open>
  if values['GA']:
      ga_makespan.append(values['GA']['Makespan'])
      ga_time.append(time_to_seconds(values['GA']['ComputationTime']))
  else:
      ga_makespan.append(np.nan)
      ga_time.append(np.nan)
  \<close>
  A record is a non-empty dictionary and so counts as true; only \<^verbatim>\<open>None\<close> takes the
  \<^verbatim>\<open>else\<close> branch.
\<close>

definition add_ga :: "experiment_rec option \<Rightarrow> aggregates \<Rightarrow> aggregates" where
  "add_ga ga a =
     (case ga of
        Some g \<Rightarrow> a\<lparr>ga_makespan := ga_makespan a @ [Fin (Makespan g)],
                     ga_time := ga_time a @ [time_to_seconds (ComputationTime g)]\<rparr>
      | None \<Rightarrow> a\<lparr>ga_makespan := ga_makespan a @ [NaN], ga_time := ga_time a @ [NaN]\<rparr>)"

definition loop_body :: "string \<times> group \<Rightarrow> aggregates \<Rightarrow> error + aggregates" where
  "loop_body cv a =
     (case config_label (fst cv) of
        Inl e \<Rightarrow> Inl e
      | Inr label \<Rightarrow>
          Inr (add_ga (GA (snd cv))
                 (add_pso (PSO (snd cv)) (a\<lparr>config_names := config_names a @ [label]\<rparr>))))"

fun aggregate_loop :: "(string \<times> group) list \<Rightarrow> aggregates \<Rightarrow> error + aggregates" where
  "aggregate_loop [] a = Inr a"
| "aggregate_loop (cv # rest) a =
     (case loop_body cv a of Inl e \<Rightarrow> Inl e | Inr a' \<Rightarrow> aggregate_loop rest a')"

text \<open>Lines 13 to 78 of the script, from the loaded experiments to the filled lists.\<close>

definition aggregate :: "experiment_rec list \<Rightarrow> error + aggregates" where
  "aggregate experiments =
     (case sorted_configs (group_experiments experiments) of
        Inl e \<Rightarrow> Inl e
      | Inr scs \<Rightarrow> aggregate_loop scs no_aggregates)"

section \<open>The derived series\<close>

text \<open>
  \<^verbatim>\<open>np.unique(xs, return_index=True)[1]\<close>: for each distinct value, in ascending order, the
  index of its first occurrence. Indexing an array with a list of indices raises IndexError
  when an index is out of range; indexing with a boolean mask raises IndexError when the
  mask and the array differ in length.
\<close>

definition first_index :: "'a list \<Rightarrow> 'a \<Rightarrow> nat" where
  "first_index xs v = length (takeWhile (\<lambda>x. x \<noteq> v) xs)"

definition np_unique_index :: "int list \<Rightarrow> nat list" where
  "np_unique_index xs = map (first_index xs) (sort (remdups xs))"

definition np_take :: "'a list \<Rightarrow> nat list \<Rightarrow> error + 'a list" where
  "np_take xs idx =
     (if list_all (\<lambda>i. i < length xs) idx then Inr (map (\<lambda>i. xs ! i) idx) else Inl IndexError)"

definition np_mask :: "'a list \<Rightarrow> bool list \<Rightarrow> error + 'a list" where
  "np_mask xs keep =
     (if length keep = length xs then Inr (map fst (filter snd (zip xs keep)))
      else Inl IndexError)"

text \<open>
  \<^verbatim>\<open>
  unique_tasks_idx = np.unique(task_counts, return_index=True)[1]
  unique_tasks = np.array(task_counts)[unique_tasks_idx]
  unique_pso = np.array(pso_avg_makespan)[unique_tasks_idx]
  unique_ga = np.array(ga_makespan)[unique_tasks_idx]
  \<close>
\<close>

definition unique_tasks_idx :: "aggregates \<Rightarrow> nat list" where
  "unique_tasks_idx a = np_unique_index (task_counts a)"

definition task_series :: "aggregates \<Rightarrow> error + (int list \<times> pyfloat list \<times> pyfloat list)" where
  "task_series a =
     (case np_take (task_counts a) (unique_tasks_idx a) of
        Inl e \<Rightarrow> Inl e
      | Inr unique_tasks \<Rightarrow>
          (case np_take (pso_avg_makespan a) (unique_tasks_idx a) of
             Inl e \<Rightarrow> Inl e
           | Inr unique_pso \<Rightarrow>
               (case np_take (ga_makespan a) (unique_tasks_idx a) of
                  Inl e \<Rightarrow> Inl e
                | Inr unique_ga \<Rightarrow> Inr (unique_tasks, unique_pso, unique_ga))))"

text \<open>
  \<^verbatim>\<open>
  valid = ~np.isnan(ga_makespan)
  ratio = np.array(pso_avg_makespan)[valid] / np.array(ga_makespan)[valid]
  \<close>
\<close>

definition valid :: "aggregates \<Rightarrow> bool list" where
  "valid a = map (\<lambda>g. \<not> isnan g) (ga_makespan a)"

definition ratio :: "aggregates \<Rightarrow> error + pyfloat list" where
  "ratio a =
     (case np_mask (pso_avg_makespan a) (valid a) of
        Inl e \<Rightarrow> Inl e
      | Inr p \<Rightarrow>
          (case np_mask (ga_makespan a) (valid a) of
             Inl e \<Rightarrow> Inl e
           | Inr g \<Rightarrow> Inr (map (\<lambda>(x, y). np_div x y) (zip p g))))"

section \<open>What the grouping and the resolver are meant to compute\<close>

text \<open>The keys of a dictionary filled in one pass: each key once, in the order of its first
  occurrence.\<close>

definition first_occurrences :: "'a list \<Rightarrow> 'a list" where
  "first_occurrences xs = rev (remdups (rev xs))"

text \<open>The group of a configuration, read off the input: its PSO runs in input order and
  the first of its Genetic runs.\<close>

definition group_of :: "experiment_rec list \<Rightarrow> string \<Rightarrow> group" where
  "group_of experiments c =
     \<lparr>PSO = filter (\<lambda>e. Configuration e = c \<and> AlgorithmType e = ''Pso'') experiments,
      GA = List.find (\<lambda>e. Configuration e = c \<and> AlgorithmType e = ''Genetic'') experiments\<rparr>"

text \<open>The precondition of the configuration key resolver: the key holds a colon, and the
  last blank-separated token of the text before the first colon is accepted by \<^verbatim>\<open>int()\<close>.\<close>

definition resolver_precondition :: "string \<Rightarrow> bool" where
  "resolver_precondition k =
     (CHR '':'' \<in> set k \<and>
      (case split_ws (takeWhile (\<lambda>c. c \<noteq> CHR '':'') k) of
         [] \<Rightarrow> False
       | t # ts \<Rightarrow> py_int (last (t # ts)) \<noteq> None))"

section \<open>An example log\<close>



section \<open>Facts about the string and number operations\<close>



























section \<open>Well-formed durations\<close>



section \<open>Malformed durations\<close>



section \<open>Facts about grouping, sorting and the loop\<close>

lemma upd_group_map:
  "upd_group k f (map (\<lambda>c. (c, G c)) K) = map (\<lambda>c. (c, if c = k then f (G c) else G c)) K"
  by (simp add: upd_group_def)

lemma find_snoc:
  "List.find P (xs @ [x]) =
     (case List.find P xs of Some y \<Rightarrow> Some y | None \<Rightarrow> if P x then Some x else None)"
  by (induction xs) auto

lemma first_occurrences_snoc:
  "first_occurrences (xs @ [x]) =
     (if x \<in> set xs then first_occurrences xs else first_occurrences xs @ [x])"
  by (simp add: first_occurrences_def)

lemma set_first_occurrences: "set (first_occurrences xs) = set xs"
  by (simp add: first_occurrences_def)

lemma distinct_first_occurrences: "distinct (first_occurrences xs)"
  by (simp add: first_occurrences_def)

lemma group_of_absent:
  "c \<notin> Configuration ` set exps \<Longrightarrow> group_of exps c = \<lparr>PSO = [], GA = None\<rparr>"
  by (induction exps) (auto simp: group_of_def)

lemma group_of_snoc:
  "group_of (exps @ [e]) c =
     (if Configuration e \<noteq> c then group_of exps c
      else if AlgorithmType e = ''Pso''
      then (group_of exps c)\<lparr>PSO := PSO (group_of exps c) @ [e]\<rparr>
      else if AlgorithmType e = ''Genetic''
      then (if GA (group_of exps c) = None then (group_of exps c)\<lparr>GA := Some e\<rparr>
            else group_of exps c)
      else group_of exps c)"
  by (auto simp: group_of_def find_snoc split: option.splits)

lemma group_step_eq:
  assumes "configs = map (\<lambda>c. (c, group_of exps c)) (first_occurrences (map Configuration exps))"
  shows "group_step configs e =
         map (\<lambda>c. (c, group_of (exps @ [e]) c))
           (first_occurrences (map Configuration (exps @ [e])))"
proof -
  let ?k = "Configuration e"
  let ?K = "first_occurrences (map Configuration exps)"
  let ?K' = "first_occurrences (map Configuration (exps @ [e]))"
  let ?configs1 = "if ?k \<in> fst ` set configs then configs
                   else configs @ [(?k, \<lparr>PSO = [], GA = None\<rparr>)]"
  have keys: "fst ` set configs = Configuration ` set exps"
    using assms by (simp add: image_image set_first_occurrences)
  have cfg1: "?configs1 = map (\<lambda>c. (c, group_of exps c)) ?K'"
  proof (cases "?k \<in> Configuration ` set exps")
    case True
    then show ?thesis using assms keys by (simp add: first_occurrences_snoc)
  next
    case False
    then show ?thesis using assms keys
      by (simp add: first_occurrences_snoc group_of_absent)
  qed
  have "group_step configs e =
        (if AlgorithmType e = ''Pso''
         then upd_group ?k (\<lambda>g. g\<lparr>PSO := PSO g @ [e]\<rparr>) ?configs1
         else if AlgorithmType e = ''Genetic''
         then upd_group ?k (\<lambda>g. if GA g = None then g\<lparr>GA := Some e\<rparr> else g) ?configs1
         else ?configs1)"
    by (simp add: group_step_def Let_def)
  also have "\<dots> = map (\<lambda>c. (c, group_of (exps @ [e]) c)) ?K'"
    unfolding cfg1 upd_group_map by (auto simp: group_of_snoc)
  finally show ?thesis .
qed

lemma group_experiments_eq:
  "group_experiments exps =
     map (\<lambda>c. (c, group_of exps c)) (first_occurrences (map Configuration exps))"
proof (induction exps rule: rev_induct)
  case Nil
  then show ?case by (simp add: group_experiments_def first_occurrences_def)
next
  case (snoc e exps)
  have "group_experiments (exps @ [e]) = group_step (group_experiments exps) e"
    by (simp add: group_experiments_def)
  then show ?case using group_step_eq[OF snoc.IH] by simp
qed

lemma group_keys:
  "map fst (group_experiments exps) = first_occurrences (map Configuration exps)"
  by (simp add: group_experiments_eq comp_def)

lemma group_lookup:
  "map_of (group_experiments exps) c =
     (if c \<in> Configuration ` set exps then Some (group_of exps c) else None)"
  by (simp add: group_experiments_eq map_of_map_restrict set_first_occurrences restrict_map_def)

lemma with_keys_Inr:
  "with_keys cfgs = Inr keyed \<Longrightarrow>
     map snd keyed = cfgs \<and> (\<forall>p \<in> set keyed. config_ordinal (fst (snd p)) = Inr (fst p))"
  by (induction cfgs arbitrary: keyed) (auto split: sum.splits)

lemma with_keys_ok_iff:
  "(\<exists>keyed. with_keys cfgs = Inr keyed) \<longleftrightarrow>
     (\<forall>cv \<in> set cfgs. \<exists>n. config_ordinal (fst cv) = Inr n)"
  by (induction cfgs) (auto split: sum.splits)

lemma sorted_configs_Inr:
  assumes "sorted_configs cfgs = Inr scs"
  obtains keyed where "with_keys cfgs = Inr keyed" "scs = map snd (sort_key fst keyed)"
  using assms by (auto simp: sorted_configs_def split: sum.splits)

lemma sorted_configs_ok_iff:
  "(\<exists>scs. sorted_configs cfgs = Inr scs) \<longleftrightarrow>
     (\<forall>cv \<in> set cfgs. \<exists>n. config_ordinal (fst cv) = Inr n)"
proof -
  have "(\<exists>scs. sorted_configs cfgs = Inr scs) \<longleftrightarrow> (\<exists>keyed. with_keys cfgs = Inr keyed)"
    by (auto simp: sorted_configs_def split: sum.splits)
  then show ?thesis by (simp add: with_keys_ok_iff)
qed

lemma sorted_configs_set:
  assumes "sorted_configs cfgs = Inr scs"
  shows "set scs = set cfgs"
proof -
  from assms obtain keyed where k: "with_keys cfgs = Inr keyed"
    and s: "scs = map snd (sort_key fst keyed)"
    by (rule sorted_configs_Inr)
  have "set scs = snd ` set keyed" using s by simp
  also have "\<dots> = set (map snd keyed)" by simp
  also have "\<dots> = set cfgs" using with_keys_Inr[OF k] by simp
  finally show ?thesis .
qed

lemma sorted_configs_ordinals:
  assumes "with_keys cfgs = Inr keyed"
  shows "map (\<lambda>cv. config_ordinal (fst cv)) (filter P (map snd (sort_key fst keyed))) =
         map Inr (map fst (filter (\<lambda>p. P (snd p)) (sort_key fst keyed)))"
proof -
  have "\<forall>p \<in> set (sort_key fst keyed). config_ordinal (fst (snd p)) = Inr (fst p)"
    using with_keys_Inr[OF assms] by simp
  then show ?thesis
    by (simp add: filter_map comp_def)
qed

lemma distinct_ordinals_iff:
  assumes "with_keys cfgs = Inr keyed" "distinct (map fst cfgs)"
  shows "distinct (map fst (sort_key fst keyed)) \<longleftrightarrow> inj_on config_ordinal (fst ` set cfgs)"
proof -
  have gen: "distinct (map config_ordinal ks) \<longleftrightarrow> inj_on config_ordinal (set ks)"
    if "distinct ks" for ks
    using that by (simp add: distinct_map)
  have "distinct (map fst (sort_key fst keyed)) \<longleftrightarrow> distinct (map fst keyed)"
    by (simp add: distinct_map)
  also have "\<dots> \<longleftrightarrow> distinct (map (Inr :: int \<Rightarrow> error + int) (map fst keyed))"
    by (subst (2) distinct_map) (simp add: inj_on_def)
  also have "map (Inr :: int \<Rightarrow> error + int) (map fst keyed) =
             map (\<lambda>p. config_ordinal (fst (snd p))) keyed"
    using with_keys_Inr[OF assms(1)] by simp
  also have "\<dots> = map config_ordinal (map fst (map snd keyed))"
    by (simp add: comp_def)
  also have "\<dots> = map config_ordinal (map fst cfgs)"
    using with_keys_Inr[OF assms(1)] by simp
  also have "distinct \<dots> \<longleftrightarrow> inj_on config_ordinal (fst ` set cfgs)"
    using gen[OF assms(2)] by (simp only: set_map)
  finally show ?thesis .
qed

section \<open>Order of the configurations\<close>

text \<open>
  Claim C4, as amended. Whenever the sort succeeds, the configurations, and among them those
  with a PSO trial, stand in ascending order of their ordinals, whatever the order of the
  input. The order is non-strict: it is strictly increasing exactly when no two
  configuration names of the input share an ordinal. Groups are keyed by the whole
  configuration name, so two names with the same number give two rows with equal ordinals.
\<close>

theorem sorted_configs_ascending:
  assumes "sorted_configs (group_experiments exps) = Inr scs"
  shows "\<exists>ns ms. map (\<lambda>cv. config_ordinal (fst cv)) scs = map Inr ns \<and> sorted ns \<and>
           map (\<lambda>cv. config_ordinal (fst cv)) (filter (\<lambda>cv. PSO (snd cv) \<noteq> []) scs) = map Inr ms \<and>
           sorted ms \<and>
           (sorted_wrt (<) ns \<longleftrightarrow> inj_on config_ordinal (Configuration ` set exps))"
proof -
  from assms obtain keyed where k: "with_keys (group_experiments exps) = Inr keyed"
    and s: "scs = map snd (sort_key fst keyed)"
    by (rule sorted_configs_Inr)
  let ?L = "sort_key fst keyed"
  let ?ns = "map fst ?L"
  let ?ms = "map fst (filter (\<lambda>p. PSO (snd (snd p)) \<noteq> []) ?L)"
  have 1: "map (\<lambda>cv. config_ordinal (fst cv)) scs = map Inr ?ns"
    using sorted_configs_ordinals[OF k, of "\<lambda>_. True"] s by simp
  have 2: "sorted ?ns" by simp
  have 3: "map (\<lambda>cv. config_ordinal (fst cv)) (filter (\<lambda>cv. PSO (snd cv) \<noteq> []) scs) = map Inr ?ms"
    using sorted_configs_ordinals[OF k] s by simp
  have 4: "sorted ?ms" using 2 by (rule sorted_filter)
  have keys: "map fst (group_experiments exps) = first_occurrences (map Configuration exps)"
    by (rule group_keys)
  have d: "distinct (map fst (group_experiments exps))"
    by (simp add: keys distinct_first_occurrences)
  have "fst ` set (group_experiments exps) = set (map fst (group_experiments exps))" by simp
  also have "\<dots> = Configuration ` set exps" by (simp only: keys set_first_occurrences set_map)
  finally have ks: "fst ` set (group_experiments exps) = Configuration ` set exps" .
  have 5: "sorted_wrt (<) ?ns \<longleftrightarrow> inj_on config_ordinal (Configuration ` set exps)"
    using distinct_ordinals_iff[OF k d] 2 by (simp add: strict_sorted_iff ks)
  from 1 2 3 4 5 show ?thesis by blast
qed

lemma split_on_first: "\<exists>rest. split_on sep s = takeWhile (\<lambda>c. c \<noteq> sep) s # rest"
  by (induction s) auto

lemma ordinal_token_eq:
  "ordinal_token k =
     (case split_ws (takeWhile (\<lambda>c. c \<noteq> CHR '':'') k) of
        [] \<Rightarrow> Inl IndexError
      | t # ts \<Rightarrow> Inr (last (t # ts)))"
proof -
  obtain rest where "split_on (CHR '':'') k = takeWhile (\<lambda>c. c \<noteq> CHR '':'') k # rest"
    using split_on_first by blast
  then show ?thesis by (simp add: ordinal_token_def)
qed

lemma config_label_ok_iff:
  "(\<exists>l. config_label k = Inr l) \<longleftrightarrow> (CHR '':'' \<in> set k \<and> (\<exists>tok. ordinal_token k = Inr tok))"
  by (auto simp: config_label_def split_first_def split: sum.splits)

lemma config_ordinal_ok_iff:
  "(\<exists>n. config_ordinal k = Inr n) \<longleftrightarrow> (\<exists>tok n. ordinal_token k = Inr tok \<and> py_int tok = Some n)"
  by (auto simp: config_ordinal_def split: sum.splits option.splits)

lemma resolver_precondition_iff:
  "resolver_precondition k \<longleftrightarrow>
     (\<exists>n. config_ordinal k = Inr n) \<and> (\<exists>l. config_label k = Inr l)"
  unfolding config_label_ok_iff config_ordinal_ok_iff ordinal_token_eq resolver_precondition_def
  by (auto split: list.splits)

lemma aggregate_loop_ok_iff:
  "(\<exists>a'. aggregate_loop scs a = Inr a') \<longleftrightarrow> (\<forall>cv \<in> set scs. \<exists>l. config_label (fst cv) = Inr l)"
  by (induction scs arbitrary: a) (auto simp: loop_body_def split: sum.splits)

lemma not_Inr_iff: "(\<exists>e. x = Inl e) \<longleftrightarrow> \<not> (\<exists>v. x = Inr v)"
  by (cases x) auto

lemma group_key_set: "fst ` set (group_experiments exps) = Configuration ` set exps"
proof -
  have "fst ` set (group_experiments exps) = set (map fst (group_experiments exps))" by simp
  also have "\<dots> = Configuration ` set exps"
    by (simp only: group_keys set_first_occurrences set_map)
  finally show ?thesis .
qed

lemma aggregate_ok_iff:
  "(\<exists>a. aggregate exps = Inr a) \<longleftrightarrow> (\<forall>e \<in> set exps. resolver_precondition (Configuration e))"
proof -
  let ?G = "group_experiments exps"
  have "(\<exists>a. aggregate exps = Inr a) \<longleftrightarrow>
        (\<exists>scs. sorted_configs ?G = Inr scs \<and> (\<exists>a. aggregate_loop scs no_aggregates = Inr a))"
    by (auto simp: aggregate_def split: sum.splits)
  also have "\<dots> \<longleftrightarrow>
        (\<exists>scs. sorted_configs ?G = Inr scs \<and> (\<forall>cv \<in> set ?G. \<exists>l. config_label (fst cv) = Inr l))"
    using sorted_configs_set[of ?G] by (auto simp: aggregate_loop_ok_iff)
  also have "\<dots> \<longleftrightarrow>
        (\<forall>cv \<in> set ?G. \<exists>n. config_ordinal (fst cv) = Inr n) \<and>
        (\<forall>cv \<in> set ?G. \<exists>l. config_label (fst cv) = Inr l)"
    using sorted_configs_ok_iff[of ?G] by blast
  also have "\<dots> \<longleftrightarrow> (\<forall>k \<in> fst ` set ?G. resolver_precondition k)"
    by (auto simp: resolver_precondition_iff)
  also have "\<dots> \<longleftrightarrow> (\<forall>e \<in> set exps. resolver_precondition (Configuration e))"
    by (simp only: group_key_set ball_simps)
  finally show ?thesis .
qed

section \<open>Malformed configuration names\<close>

text \<open>
  Claim C8. A configuration name satisfies the precondition of the resolver exactly when
  both the sort key and the label of the name are computed without an exception. The
  script fails with an exception as soon as one record has a name that violates the
  precondition, and the aggregation runs to its end when every name satisfies it. A name
  without a colon may pass the sort; it then raises IndexError where the label is built.
\<close>

theorem resolver_precondition_fatal:
  "(resolver_precondition k \<longleftrightarrow>
      (\<exists>n. config_ordinal k = Inr n) \<and> (\<exists>l. config_label k = Inr l)) \<and>
   ((\<exists>e \<in> set exps. \<not> resolver_precondition (Configuration e)) \<longrightarrow>
      (\<exists>err. aggregate exps = Inl err)) \<and>
   ((\<forall>e \<in> set exps. resolver_precondition (Configuration e)) \<longrightarrow>
      (\<exists>a. aggregate exps = Inr a))"
  using aggregate_ok_iff[of exps] resolver_precondition_iff[of k]
    not_Inr_iff[of "aggregate exps"]
  by blast

theorem resolver_precondition_fatal_witness:
  "\<not> resolver_precondition ''nocolon 5'' \<and> \<not> resolver_precondition ''x: 5'' \<and>
   aggregate [\<lparr>Configuration = ''nocolon 5'', AlgorithmType = ''Pso'', Makespan = 10,
                ComputationTime = JStr ''0:00:01'', TaskCount = 3\<rparr>] = Inl IndexError \<and>
   aggregate [\<lparr>Configuration = ''x: 5'', AlgorithmType = ''Pso'', Makespan = 10,
                ComputationTime = JStr ''0:00:01'', TaskCount = 3\<rparr>] = Inl ValueError \<and>
   resolver_precondition ''Exp 7: seven'' \<and>
   config_ordinal ''Exp 7: seven'' = Inr 7 \<and> config_label ''Exp 7: seven'' = Inr ''7: seven'' \<and>
   aggregate [\<lparr>Configuration = ''Exp 7: seven'', AlgorithmType = ''Genetic'', Makespan = 10,
                ComputationTime = JStr ''0:00:01'', TaskCount = 3\<rparr>]
     = Inr \<lparr>config_names = [''7: seven''], pso_avg_makespan = [], pso_min_makespan = [],
             pso_max_makespan = [], ga_makespan = [Fin 10], pso_avg_time = [],
             pso_min_time = [], pso_max_time = [], ga_time = [Fin 1], task_counts = []\<rparr>"
  (is ?concrete)
proof -
  have c: ?concrete by code_simp
  show ?thesis
    using resolver_precondition_fatal [of "''nocolon 5''"
        "[\<lparr>Configuration = ''nocolon 5'', AlgorithmType = ''Pso'', Makespan = 10,
                  ComputationTime = JStr ''0:00:01'', TaskCount = 3\<rparr>]"]
      resolver_precondition_fatal [of "''Exp 7: seven''"
        "[\<lparr>Configuration = ''Exp 7: seven'', AlgorithmType = ''Genetic'', Makespan = 10,
                  ComputationTime = JStr ''0:00:01'', TaskCount = 3\<rparr>]"]
    by - (rule c)
qed

lemma add_pso_fields:
  "pso_avg_makespan (add_pso trials a) =
     pso_avg_makespan a @
       (if trials = [] then [] else [np_mean (map (\<lambda>e. Fin (Makespan e)) trials)])"
  "task_counts (add_pso trials a) =
     task_counts a @ (if trials = [] then [] else [TaskCount (hd trials)])"
  "ga_makespan (add_pso trials a) = ga_makespan a"
  "config_names (add_pso trials a) = config_names a"
  by (cases trials; simp add: add_pso_def Let_def comp_def)+

lemma add_ga_fields:
  "ga_makespan (add_ga ga a) =
     ga_makespan a @ [case ga of Some g \<Rightarrow> Fin (Makespan g) | None \<Rightarrow> NaN]"
  "pso_avg_makespan (add_ga ga a) = pso_avg_makespan a"
  "task_counts (add_ga ga a) = task_counts a"
  "config_names (add_ga ga a) = config_names a"
  by (cases ga; simp add: add_ga_def)+

lemma loop_body_fields:
  assumes "loop_body cv a = Inr a'"
  shows "ga_makespan a' =
           ga_makespan a @ [case GA (snd cv) of Some g \<Rightarrow> Fin (Makespan g) | None \<Rightarrow> NaN]"
    and "pso_avg_makespan a' =
           pso_avg_makespan a @
             (if PSO (snd cv) = [] then []
              else [np_mean (map (\<lambda>e. Fin (Makespan e)) (PSO (snd cv)))])"
    and "task_counts a' =
           task_counts a @ (if PSO (snd cv) = [] then [] else [TaskCount (hd (PSO (snd cv)))])"
    and "length (config_names a') = Suc (length (config_names a))"
  using assms
  by (auto simp: loop_body_def add_ga_fields add_pso_fields split: sum.splits)

lemma aggregate_loop_fields:
  assumes "aggregate_loop scs a = Inr a'"
  shows "ga_makespan a' =
           ga_makespan a @
             map (\<lambda>cv. case GA (snd cv) of Some g \<Rightarrow> Fin (Makespan g) | None \<Rightarrow> NaN) scs \<and>
         pso_avg_makespan a' =
           pso_avg_makespan a @
             map (\<lambda>cv. np_mean (map (\<lambda>e. Fin (Makespan e)) (PSO (snd cv))))
               (filter (\<lambda>cv. PSO (snd cv) \<noteq> []) scs) \<and>
         task_counts a' =
           task_counts a @
             map (\<lambda>cv. TaskCount (hd (PSO (snd cv)))) (filter (\<lambda>cv. PSO (snd cv) \<noteq> []) scs) \<and>
         length (config_names a') = length (config_names a) + length scs"
  using assms
proof (induction scs arbitrary: a)
  case Nil
  then show ?case by simp
next
  case (Cons cv scs)
  from Cons.prems obtain a1 where b: "loop_body cv a = Inr a1"
    and r: "aggregate_loop scs a1 = Inr a'"
    by (auto split: sum.splits)
  show ?case
    using Cons.IH[OF r] loop_body_fields[OF b] by simp
qed

lemma aggregate_fields:
  assumes "aggregate exps = Inr a"
  obtains scs where "sorted_configs (group_experiments exps) = Inr scs"
    and "ga_makespan a =
           map (\<lambda>cv. case GA (snd cv) of Some g \<Rightarrow> Fin (Makespan g) | None \<Rightarrow> NaN) scs"
    and "pso_avg_makespan a =
           map (\<lambda>cv. np_mean (map (\<lambda>e. Fin (Makespan e)) (PSO (snd cv))))
             (filter (\<lambda>cv. PSO (snd cv) \<noteq> []) scs)"
    and "task_counts a =
           map (\<lambda>cv. TaskCount (hd (PSO (snd cv)))) (filter (\<lambda>cv. PSO (snd cv) \<noteq> []) scs)"
    and "length (config_names a) = length scs"
proof -
  from assms obtain scs where s: "sorted_configs (group_experiments exps) = Inr scs"
    and l: "aggregate_loop scs no_aggregates = Inr a"
    by (auto simp: aggregate_def split: sum.splits)
  from aggregate_loop_fields[OF l] s that show thesis
    by (simp add: no_aggregates_def)
qed

lemma length_filter_full: "length (filter P xs) = length xs \<longleftrightarrow> (\<forall>x \<in> set xs. P x)"
proof
  assume e: "length (filter P xs) = length xs"
  show "\<forall>x \<in> set xs. P x"
  proof
    fix x
    assume "x \<in> set xs"
    then show "P x" using length_filter_less[of x xs P] e by auto
  qed
next
  assume "\<forall>x \<in> set xs. P x"
  then show "length (filter P xs) = length xs" by simp
qed

text \<open>The lists that get one entry per group and the lists that get one entry per group
  with a PSO trial have the same length exactly when no group is without a PSO trial.\<close>

lemma aggregate_lengths:
  assumes "aggregate exps = Inr a"
  shows "length (config_names a) = length (group_experiments exps)"
    and "length (ga_makespan a) = length (group_experiments exps)"
    and "length (task_counts a) = length (pso_avg_makespan a)"
    and "length (pso_avg_makespan a) =
           length (filter (\<lambda>cv. PSO (snd cv) \<noteq> []) (group_experiments exps))"
    and "length (pso_avg_makespan a) = length (ga_makespan a) \<longleftrightarrow>
           (\<forall>cv \<in> set (group_experiments exps). PSO (snd cv) \<noteq> [])"
proof -
  from assms obtain scs where s: "sorted_configs (group_experiments exps) = Inr scs"
    and g: "length (ga_makespan a) = length scs"
    and p: "length (pso_avg_makespan a) = length (filter (\<lambda>cv. PSO (snd cv) \<noteq> []) scs)"
    and t: "length (task_counts a) = length (filter (\<lambda>cv. PSO (snd cv) \<noteq> []) scs)"
    and c: "length (config_names a) = length scs"
    by (rule aggregate_fields) simp
  from s obtain keyed where k: "with_keys (group_experiments exps) = Inr keyed"
    and sk: "scs = map snd (sort_key fst keyed)"
    by (rule sorted_configs_Inr)
  have ms: "map snd keyed = group_experiments exps"
    using with_keys_Inr[OF k] by simp
  have len: "length scs = length (group_experiments exps)"
    using sk ms by (metis length_map length_sort)
  have "filter (\<lambda>cv. PSO (snd cv) \<noteq> []) scs =
        map snd (sort_key fst (filter (\<lambda>p. PSO (snd (snd p)) \<noteq> []) keyed))"
    by (simp add: sk filter_map comp_def filter_sort)
  then have "length (filter (\<lambda>cv. PSO (snd cv) \<noteq> []) scs) =
        length (map snd (filter (\<lambda>p. PSO (snd (snd p)) \<noteq> []) keyed))"
    by simp
  also have "map snd (filter (\<lambda>p. PSO (snd (snd p)) \<noteq> []) keyed) =
        filter (\<lambda>cv. PSO (snd cv) \<noteq> []) (map snd keyed)"
    by (simp add: filter_map comp_def)
  finally have flen: "length (filter (\<lambda>cv. PSO (snd cv) \<noteq> []) scs) =
              length (filter (\<lambda>cv. PSO (snd cv) \<noteq> []) (group_experiments exps))"
    by (simp only: ms)
  show "length (config_names a) = length (group_experiments exps)" using c len by simp
  show "length (ga_makespan a) = length (group_experiments exps)" using g len by simp
  show "length (task_counts a) = length (pso_avg_makespan a)" using p t by simp
  show "length (pso_avg_makespan a) =
           length (filter (\<lambda>cv. PSO (snd cv) \<noteq> []) (group_experiments exps))"
    using p flen by simp
  show "length (pso_avg_makespan a) = length (ga_makespan a) \<longleftrightarrow>
           (\<forall>cv \<in> set (group_experiments exps). PSO (snd cv) \<noteq> [])"
    using p flen g len by (simp add: length_filter_full)
qed

section \<open>The Genetic run of a configuration\<close>

text \<open>
  Claim C5. The Genetic run kept for a configuration is the first run of the input with
  that configuration and algorithm type Genetic; later ones are ignored. The entry of
  \<open>ga_makespan\<close> for a configuration is the makespan of that first run, or not-a-number
  when there is none.
\<close>

theorem ga_first_write_wins:
  "(map_of (group_experiments exps) c = Some g \<longrightarrow>
      GA g = List.find (\<lambda>e. Configuration e = c \<and> AlgorithmType e = ''Genetic'') exps) \<and>
   (sorted_configs (group_experiments exps) = Inr scs \<and> aggregate exps = Inr a \<longrightarrow>
      ga_makespan a =
        map (\<lambda>cv. case List.find (\<lambda>e. Configuration e = fst cv \<and> AlgorithmType e = ''Genetic'')
                         exps of
                     Some e \<Rightarrow> Fin (Makespan e)
                   | None \<Rightarrow> NaN) scs)"
proof (intro conjI impI)
  assume "map_of (group_experiments exps) c = Some g"
  then have "g = group_of exps c"
    by (simp add: group_lookup split: if_splits)
  then show "GA g = List.find (\<lambda>e. Configuration e = c \<and> AlgorithmType e = ''Genetic'') exps"
    by (simp add: group_of_def)
next
  assume h: "sorted_configs (group_experiments exps) = Inr scs \<and> aggregate exps = Inr a"
  then have s: "sorted_configs (group_experiments exps) = Inr scs"
    and a: "aggregate exps = Inr a" by simp_all
  from a s have ga: "ga_makespan a =
      map (\<lambda>cv. case GA (snd cv) of Some g \<Rightarrow> Fin (Makespan g) | None \<Rightarrow> NaN) scs"
    by (elim aggregate_fields) simp
  have "\<forall>cv \<in> set scs. snd cv = group_of exps (fst cv)"
    using sorted_configs_set[OF s] by (auto simp: group_experiments_eq)
  then have "\<forall>cv \<in> set scs. GA (snd cv) =
      List.find (\<lambda>e. Configuration e = fst cv \<and> AlgorithmType e = ''Genetic'') exps"
    by (simp add: group_of_def)
  then show "ga_makespan a =
        map (\<lambda>cv. case List.find (\<lambda>e. Configuration e = fst cv \<and> AlgorithmType e = ''Genetic'')
                         exps of
                     Some e \<Rightarrow> Fin (Makespan e)
                   | None \<Rightarrow> NaN) scs"
    unfolding ga by (intro map_cong) simp_all
qed

theorem ga_first_write_wins_witness:
  "map_of (group_experiments
     [\<lparr>Configuration = ''1: A'', AlgorithmType = ''Genetic'', Makespan = 90,
        ComputationTime = JStr ''0:00:08'', TaskCount = 5\<rparr>,
      \<lparr>Configuration = ''1: A'', AlgorithmType = ''Genetic'', Makespan = 50,
        ComputationTime = JStr ''0:00:09'', TaskCount = 5\<rparr>,
      \<lparr>Configuration = ''1: A'', AlgorithmType = ''Pso'', Makespan = 100,
        ComputationTime = JStr ''0:00:10'', TaskCount = 5\<rparr>]) ''1: A''
     = Some \<lparr>PSO = [\<lparr>Configuration = ''1: A'', AlgorithmType = ''Pso'', Makespan = 100,
                       ComputationTime = JStr ''0:00:10'', TaskCount = 5\<rparr>],
              GA = Some \<lparr>Configuration = ''1: A'', AlgorithmType = ''Genetic'', Makespan = 90,
                          ComputationTime = JStr ''0:00:08'', TaskCount = 5\<rparr>\<rparr> \<and>
   aggregate
     [\<lparr>Configuration = ''1: A'', AlgorithmType = ''Genetic'', Makespan = 90,
        ComputationTime = JStr ''0:00:08'', TaskCount = 5\<rparr>,
      \<lparr>Configuration = ''1: A'', AlgorithmType = ''Genetic'', Makespan = 50,
        ComputationTime = JStr ''0:00:09'', TaskCount = 5\<rparr>,
      \<lparr>Configuration = ''1: A'', AlgorithmType = ''Pso'', Makespan = 100,
        ComputationTime = JStr ''0:00:10'', TaskCount = 5\<rparr>]
     = Inr \<lparr>config_names = [''1: A''], pso_avg_makespan = [Fin 100], pso_min_makespan = [100],
            pso_max_makespan = [100], ga_makespan = [Fin 90], pso_avg_time = [Fin 10],
            pso_min_time = [Fin 10], pso_max_time = [Fin 10], ga_time = [Fin 8],
            task_counts = [5]\<rparr>"
  (is ?concrete)
proof -
  have c: ?concrete by code_simp
  show ?thesis
    using ga_first_write_wins [of
      "[\<lparr>Configuration = ''1: A'', AlgorithmType = ''Genetic'', Makespan = 90,
        ComputationTime = JStr ''0:00:08'', TaskCount = 5\<rparr>,
      \<lparr>Configuration = ''1: A'', AlgorithmType = ''Genetic'', Makespan = 50,
        ComputationTime = JStr ''0:00:09'', TaskCount = 5\<rparr>,
      \<lparr>Configuration = ''1: A'', AlgorithmType = ''Pso'', Makespan = 100,
        ComputationTime = JStr ''0:00:10'', TaskCount = 5\<rparr>]" "''1: A''"]
    by - (rule c)
qed

section \<open>Alignment of the lists\<close>

text \<open>
  Claim C1. The lists are indexed together by the plots and by the ratio, so they must be
  equally long and position by position about one configuration. The loop appends a label
  and a GA entry for every group, but PSO entries and a task count only for a group with a
  PSO trial. With a configuration that has a Genetic run only, the lists differ in length
  and are out of step: below, position 0 of the PSO lists is configuration 2 while position
  0 of the labels and of the GA lists is configuration 1, the ratio raises IndexError, and
  the task-count series pairs the PSO mean of configuration 2 with the GA makespan of
  configuration 1.
\<close>

theorem ga_only_group_misaligns:
  "aggregate
     [\<lparr>Configuration = ''1: A'', AlgorithmType = ''Genetic'', Makespan = 90,
        ComputationTime = JStr ''0:00:08'', TaskCount = 5\<rparr>,
      \<lparr>Configuration = ''2: B'', AlgorithmType = ''Pso'', Makespan = 100,
        ComputationTime = JStr ''0:00:10'', TaskCount = 7\<rparr>]
     = Inr \<lparr>config_names = [''1: A'', ''2: B''], pso_avg_makespan = [Fin 100],
            pso_min_makespan = [100], pso_max_makespan = [100], ga_makespan = [Fin 90, NaN],
            pso_avg_time = [Fin 10], pso_min_time = [Fin 10], pso_max_time = [Fin 10],
            ga_time = [Fin 8, NaN], task_counts = [7]\<rparr> \<and>
   ratio \<lparr>config_names = [''1: A'', ''2: B''], pso_avg_makespan = [Fin 100],
            pso_min_makespan = [100], pso_max_makespan = [100], ga_makespan = [Fin 90, NaN],
            pso_avg_time = [Fin 10], pso_min_time = [Fin 10], pso_max_time = [Fin 10],
            ga_time = [Fin 8, NaN], task_counts = [7]\<rparr> = Inl IndexError \<and>
   task_series \<lparr>config_names = [''1: A'', ''2: B''], pso_avg_makespan = [Fin 100],
            pso_min_makespan = [100], pso_max_makespan = [100], ga_makespan = [Fin 90, NaN],
            pso_avg_time = [Fin 10], pso_min_time = [Fin 10], pso_max_time = [Fin 10],
            ga_time = [Fin 8, NaN], task_counts = [7]\<rparr> = Inr ([7], [Fin 100], [Fin 90])"
  by code_simp

text \<open>
  Two configuration names with the number 1 give two rows, both with ordinal 1: the ordinals
  of the rows are neither pairwise distinct nor strictly increasing.
\<close>

theorem ordinals_not_strict_counterexample:
  "aggregate
     [\<lparr>Configuration = ''1: A'', AlgorithmType = ''Pso'', Makespan = 100,
        ComputationTime = JStr ''0:00:10'', TaskCount = 5\<rparr>,
      \<lparr>Configuration = ''1: B'', AlgorithmType = ''Pso'', Makespan = 120,
        ComputationTime = JStr ''0:00:12'', TaskCount = 7\<rparr>]
     = Inr \<lparr>config_names = [''1: A'', ''1: B''], pso_avg_makespan = [Fin 100, Fin 120],
            pso_min_makespan = [100, 120], pso_max_makespan = [100, 120],
            ga_makespan = [NaN, NaN], pso_avg_time = [Fin 10, Fin 12],
            pso_min_time = [Fin 10, Fin 12], pso_max_time = [Fin 10, Fin 12],
            ga_time = [NaN, NaN], task_counts = [5, 7]\<rparr> \<and>
   config_ordinal ''1: A'' = Inr 1 \<and> config_ordinal ''1: B'' = Inr 1 \<and>
   \<not> sorted_wrt (<) [1 :: int, 1]"
  by code_simp

theorem sorted_configs_ascending_witness:
  "sorted_configs (group_experiments
     [\<lparr>Configuration = ''10: B'', AlgorithmType = ''Pso'', Makespan = 120,
        ComputationTime = JStr ''0:00:12'', TaskCount = 7\<rparr>,
      \<lparr>Configuration = ''9: A'', AlgorithmType = ''Pso'', Makespan = 100,
        ComputationTime = JStr ''0:00:10'', TaskCount = 5\<rparr>])
     = Inr [(''9: A'', \<lparr>PSO = [\<lparr>Configuration = ''9: A'', AlgorithmType = ''Pso'',
                                  Makespan = 100, ComputationTime = JStr ''0:00:10'',
                                  TaskCount = 5\<rparr>], GA = None\<rparr>),
            (''10: B'', \<lparr>PSO = [\<lparr>Configuration = ''10: B'', AlgorithmType = ''Pso'',
                                   Makespan = 120, ComputationTime = JStr ''0:00:12'',
                                   TaskCount = 7\<rparr>], GA = None\<rparr>)] \<and>
   map config_ordinal [''9: A'', ''10: B''] = [Inr 9, Inr 10]"
  (is ?concrete)
proof -
  have c: ?concrete by code_simp
  then have h: "sorted_configs (group_experiments
     [\<lparr>Configuration = ''10: B'', AlgorithmType = ''Pso'', Makespan = 120,
        ComputationTime = JStr ''0:00:12'', TaskCount = 7\<rparr>,
      \<lparr>Configuration = ''9: A'', AlgorithmType = ''Pso'', Makespan = 100,
        ComputationTime = JStr ''0:00:10'', TaskCount = 5\<rparr>])
     = Inr [(''9: A'', \<lparr>PSO = [\<lparr>Configuration = ''9: A'', AlgorithmType = ''Pso'',
                                  Makespan = 100, ComputationTime = JStr ''0:00:10'',
                                  TaskCount = 5\<rparr>], GA = None\<rparr>),
            (''10: B'', \<lparr>PSO = [\<lparr>Configuration = ''10: B'', AlgorithmType = ''Pso'',
                                   Makespan = 120, ComputationTime = JStr ''0:00:12'',
                                   TaskCount = 7\<rparr>], GA = None\<rparr>)]"
    by (rule conjunct1)
  show ?thesis using sorted_configs_ascending [OF h] by - (rule c)
qed




section \<open>The quality ratio\<close>




section \<open>The task-count series\<close>



section \<open>Empty input\<close>

text \<open>
  Claim C9. With no experiment in the input, and more generally whenever the grouping loop
  forms no configuration group, the aggregation loop raises nothing and leaves every list
  empty, and both derived series are computed from the empty lists without an exception
  and are empty.
\<close>

theorem empty_input_gives_empty_series:
  assumes "group_experiments exps = []"
  shows "aggregate exps = Inr no_aggregates \<and>
         task_series no_aggregates = Inr ([], [], []) \<and>
         ratio no_aggregates = Inr []"
  using assms
  by (simp add: aggregate_def sorted_configs_def task_series_def ratio_def no_aggregates_def
      unique_tasks_idx_def np_unique_index_def np_take_def np_mask_def valid_def)

theorem empty_input_gives_empty_series_witness:
  "group_experiments [] = [] \<and> aggregate [] = Inr no_aggregates \<and>
   task_series no_aggregates = Inr ([], [], []) \<and> ratio no_aggregates = Inr []"
  using empty_input_gives_empty_series [of "[]"] by (simp add: group_experiments_def)

section \<open>Negative durations\<close>

text \<open>
  Claim C10. The result of \<open>time_to_seconds\<close> can be negative: \<^verbatim>\<open>int()\<close> accepts a minus
  sign, so \<^verbatim>\<open>"-1:00:00"\<close> gives -3600 seconds, neither 0 nor an error, and the mean,
  minimum and maximum of the times of a configuration with such a trial are negative.
\<close>

theorem time_to_seconds_negative:
  "time_to_seconds (JStr ''-1:00:00'') = Fin (- 3600) \<and>
   aggregate [\<lparr>Configuration = ''1: A'', AlgorithmType = ''Pso'', Makespan = 10,
                ComputationTime = JStr ''-1:00:00'', TaskCount = 3\<rparr>]
     = Inr \<lparr>config_names = [''1: A''], pso_avg_makespan = [Fin 10], pso_min_makespan = [10],
            pso_max_makespan = [10], ga_makespan = [NaN], pso_avg_time = [Fin (- 3600)],
            pso_min_time = [Fin (- 3600)], pso_max_time = [Fin (- 3600)], ga_time = [NaN],
            task_counts = [3]\<rparr>"
  by code_simp

end
